theory Spec2Isabelle
  imports Main
begin

section \<open>Data migration 0097: loading and removing the initial safe data\<close>

text \<open>
  The migration module \<^verbatim>\<open>0097_load_initial_safe_data.py\<close> has two functions that the
  migration runner calls: \<^verbatim>\<open>load_initial_safe_data\<close> (apply) and
  \<^verbatim>\<open>reverse_initial_safe_data\<close> (reverse). Both only call code outside the module:
  \<^verbatim>\<open>os.path.exists\<close>, \<^verbatim>\<open>call_command\<close>, \<^verbatim>\<open>apps.get_model\<close> and
  \<^verbatim>\<open>Model.objects.all().delete()\<close>. These calls are parameters of the model, so that
  every behaviour they can show (returning, raising, changing the store) is covered.
\<close>

subsection \<open>Python exceptions\<close>

text \<open>
  Python's built-in hierarchy: everything that can be raised derives from
  \<^verbatim>\<open>BaseException\<close>; its direct subclasses are \<^verbatim>\<open>Exception\<close> (all the ordinary
  errors) and the three system-exiting ones. \<open>Exception cls\<close> is an instance of a class
  \<open>cls\<close> that derives from \<^verbatim>\<open>Exception\<close>.
\<close>

datatype py_exception =
    Exception string
  | KeyboardInterrupt
  | SystemExit
  | GeneratorExit

fun isinstance_Exception :: "py_exception \<Rightarrow> bool" where
  "isinstance_Exception (Exception cls) = True"
| "isinstance_Exception KeyboardInterrupt = False"
| "isinstance_Exception SystemExit = False"
| "isinstance_Exception GeneratorExit = False"

subsection \<open>The world outside the module\<close>

text \<open>
  \<open>'w\<close> is the state of everything outside the module (the data store and the
  filesystem), \<open>'m\<close> the model classes that the registry hands out. The record holds
  the behaviour of the external calls:
  \<^item> \<open>path_exists w p\<close>: the result of \<^verbatim>\<open>os.path.exists(p)\<close>, which returns a bool
    and raises nothing for a string argument;
  \<^item> \<open>run_command name arg v w\<close>: \<^verbatim>\<open>call_command(name, arg, verbosity=v)\<close>, which
    returns (\<open>None\<close>) or raises (\<open>Some e\<close>), and leaves the world as \<open>w'\<close> either way;
  \<^item> \<open>delete_rows m w\<close>: \<^verbatim>\<open>m.objects.all().delete()\<close>, likewise.
\<close>

record ('w, 'm) env =
  path_exists :: "'w \<Rightarrow> string \<Rightarrow> bool"
  run_command :: "string \<Rightarrow> string \<Rightarrow> int \<Rightarrow> 'w \<Rightarrow> py_exception option \<times> 'w"
  delete_rows :: "'m \<Rightarrow> 'w \<Rightarrow> py_exception option \<times> 'w"

text \<open>
  The \<^verbatim>\<open>apps\<close> argument is the schema registry; the module only calls its
  \<^verbatim>\<open>get_model(app_label, model_name)\<close>, which returns a model class or raises
  (\<^verbatim>\<open>LookupError\<close> when the application or the model is not there).
\<close>

type_synonym 'm apps = "string \<Rightarrow> string \<Rightarrow> py_exception + 'm"

text \<open>The external calls a run makes, in the order it makes them.\<close>

datatype 'm call =
    Os_path_exists string
  | Call_command string string int
  | Get_model string string
  | Objects_all_delete 'm

record ('w, 'm) state =
  world :: 'w
  calls :: "'m call list"

subsection \<open>Statements\<close>

text \<open>
  A statement takes the state and gives a result and the new state; the result is
  \<open>Inl e\<close> when the exception \<open>e\<close> leaves the statement and \<open>Inr v\<close> when it completes.
\<close>

type_synonym ('w, 'm, 'a) py = "('w, 'm) state \<Rightarrow> (py_exception + 'a) \<times> ('w, 'm) state"

definition py_return :: "'a \<Rightarrow> ('w, 'm, 'a) py" where
  "py_return v s = (Inr v, s)"

definition py_bind :: "('w, 'm, 'a) py \<Rightarrow> ('a \<Rightarrow> ('w, 'm, 'b) py) \<Rightarrow> ('w, 'm, 'b) py" where
  "py_bind f g s =
     (case f s of
        (Inl e, s') \<Rightarrow> (Inl e, s')
      | (Inr v, s') \<Rightarrow> g v s')"

definition py_seq :: "('w, 'm, 'a) py \<Rightarrow> ('w, 'm, 'b) py \<Rightarrow> ('w, 'm, 'b) py" where
  "py_seq f g = py_bind f (\<lambda>_. g)"

text \<open>
  \<^verbatim>\<open>try: body  except Exception: pass\<close>. The handler takes an exception that is an
  instance of \<^verbatim>\<open>Exception\<close>; any other one leaves the statement.
\<close>

definition try_except_Exception_pass :: "('w, 'm, 'a) py \<Rightarrow> ('w, 'm, unit) py" where
  "try_except_Exception_pass body s =
     (case body s of
        (Inl e, s') \<Rightarrow> if isinstance_Exception e then (Inr (), s') else (Inl e, s')
      | (Inr v, s') \<Rightarrow> (Inr (), s'))"

definition raise_or_return :: "py_exception option \<Rightarrow> py_exception + unit" where
  "raise_or_return r = (case r of None \<Rightarrow> Inr () | Some e \<Rightarrow> Inl e)"

definition os_path_exists :: "('w, 'm) env \<Rightarrow> string \<Rightarrow> ('w, 'm, bool) py" where
  "os_path_exists env p s =
     (Inr (path_exists env (world s) p), s\<lparr>calls := calls s @ [Os_path_exists p]\<rparr>)"

definition call_command :: "('w, 'm) env \<Rightarrow> string \<Rightarrow> string \<Rightarrow> int \<Rightarrow> ('w, 'm, unit) py" where
  "call_command env name arg verbosity s =
     (case run_command env name arg verbosity (world s) of
        (r, w') \<Rightarrow>
          (raise_or_return r,
           \<lparr>world = w', calls = calls s @ [Call_command name arg verbosity]\<rparr>))"

definition get_model :: "'m apps \<Rightarrow> string \<Rightarrow> string \<Rightarrow> ('w, 'm, 'm) py" where
  "get_model apps app_label model_name s =
     (apps app_label model_name, s\<lparr>calls := calls s @ [Get_model app_label model_name]\<rparr>)"

definition objects_all_delete :: "('w, 'm) env \<Rightarrow> 'm \<Rightarrow> ('w, 'm, unit) py" where
  "objects_all_delete env m s =
     (case delete_rows env m (world s) of
        (r, w') \<Rightarrow>
          (raise_or_return r, \<lparr>world = w', calls = calls s @ [Objects_all_delete m]\<rparr>))"

subsection \<open>The two functions of the migration\<close>

definition fixture_file :: string where
  "fixture_file = ''/app/migration/fixtures/safe_full_data.json''"

definition load_initial_safe_data ::
  "('w, 'm) env \<Rightarrow> 'm apps \<Rightarrow> 'se \<Rightarrow> ('w, 'm, unit) py" where
  "load_initial_safe_data env apps schema_editor =
     py_bind (os_path_exists env fixture_file) (\<lambda>found.
       if \<not> found then py_return ()
       else try_except_Exception_pass (call_command env ''loaddata'' fixture_file 0))"

definition reverse_initial_safe_data ::
  "('w, 'm) env \<Rightarrow> 'm apps \<Rightarrow> 'se \<Rightarrow> ('w, 'm, unit) py" where
  "reverse_initial_safe_data env apps schema_editor =
     py_bind (get_model apps ''history'' ''SafeContract'') (\<lambda>SafeContract.
     py_bind (get_model apps ''history'' ''SafeMasterCopy'') (\<lambda>SafeMasterCopy.
     py_bind (get_model apps ''history'' ''ProxyFactory'') (\<lambda>ProxyFactory.
     py_bind (get_model apps ''contracts'' ''Contract'') (\<lambda>Contract.
     py_bind (get_model apps ''contracts'' ''ContractAbi'') (\<lambda>ContractAbi.
     py_bind (get_model apps ''history'' ''Chain'') (\<lambda>Chain.
       try_except_Exception_pass
         (py_seq (objects_all_delete env SafeContract)
         (py_seq (objects_all_delete env Contract)
         (py_seq (objects_all_delete env ContractAbi)
         (py_seq (objects_all_delete env SafeMasterCopy)
         (py_seq (objects_all_delete env ProxyFactory)
                 (objects_all_delete env Chain))))))))))))"

subsection \<open>The lookups and the deletes of the reverse function as sequences\<close>

text \<open>
  The six \<^verbatim>\<open>apps.get_model\<close> calls in the order of the source (lines 19 to 24).
\<close>

definition model_lookups :: "(string \<times> string) list" where
  "model_lookups =
     [(''history'', ''SafeContract''), (''history'', ''SafeMasterCopy''),
      (''history'', ''ProxyFactory''), (''contracts'', ''Contract''),
      (''contracts'', ''ContractAbi''), (''history'', ''Chain'')]"

definition lookup_calls :: "'m call list" where
  "lookup_calls = map (\<lambda>(app_label, model_name). Get_model app_label model_name) model_lookups"

text \<open>The exception of the first lookup that raises, if one does.\<close>

fun first_raise :: "'m apps \<Rightarrow> (string \<times> string) list \<Rightarrow> py_exception option" where
  "first_raise apps [] = None"
| "first_raise apps ((app_label, model_name) # qs) =
     (case apps app_label model_name of
        Inl e \<Rightarrow> Some e
      | Inr m \<Rightarrow> first_raise apps qs)"

text \<open>
  What a sequence of delete statements does to the world: each delete runs in the world
  the one before left, and the first that raises ends the sequence.
\<close>

fun delete_seq :: "('w, 'm) env \<Rightarrow> 'm list \<Rightarrow> 'w \<Rightarrow> py_exception option \<times> 'w" where
  "delete_seq env [] w = (None, w)"
| "delete_seq env (m # ms) w =
     (case delete_rows env m w of
        (None, w') \<Rightarrow> delete_seq env ms w'
      | (Some e, w') \<Rightarrow> (Some e, w'))"

text \<open>The same sequence as statements, with the calls recorded.\<close>

fun delete_each :: "('w, 'm) env \<Rightarrow> 'm list \<Rightarrow> ('w, 'm, unit) py" where
  "delete_each env [] = py_return ()"
| "delete_each env (m # ms) = py_seq (objects_all_delete env m) (delete_each env ms)"

subsection \<open>A small store to run the functions on\<close>

text \<open>
  Six model classes, a store that holds the rows of each as a list of row ids, and the
  files that exist. The registry knows the six models under their labels; the loader
  inserts the rows of the fixture and raises \<^verbatim>\<open>IntegrityError\<close>, as a violated unique
  constraint does, on a row that is already there; a delete empties the table of its model.
\<close>

datatype demo_model =
    SafeContract_model
  | SafeMasterCopy_model
  | ProxyFactory_model
  | Contract_model
  | ContractAbi_model
  | Chain_model

record demo_world =
  files :: "string list"
  tables :: "demo_model \<Rightarrow> nat list"

definition demo_rows :: "demo_world \<Rightarrow> demo_model \<Rightarrow> nat set" where
  "demo_rows w m = set (tables w m)"

definition demo_apps :: "demo_model apps" where
  "demo_apps app_label model_name =
     (if app_label = ''history'' \<and> model_name = ''SafeContract'' then Inr SafeContract_model
      else if app_label = ''history'' \<and> model_name = ''SafeMasterCopy'' then Inr SafeMasterCopy_model
      else if app_label = ''history'' \<and> model_name = ''ProxyFactory'' then Inr ProxyFactory_model
      else if app_label = ''contracts'' \<and> model_name = ''Contract'' then Inr Contract_model
      else if app_label = ''contracts'' \<and> model_name = ''ContractAbi'' then Inr ContractAbi_model
      else if app_label = ''history'' \<and> model_name = ''Chain'' then Inr Chain_model
      else Inl (Exception ''LookupError''))"

text \<open>A registry in which the application \<^verbatim>\<open>contracts\<close> is not installed.\<close>

definition demo_apps_history_only :: "demo_model apps" where
  "demo_apps_history_only app_label model_name =
     (if app_label = ''history'' then demo_apps app_label model_name
      else Inl (Exception ''LookupError''))"

text \<open>A registry of a schema state in which the model \<^verbatim>\<open>Chain\<close> does not exist yet.\<close>

definition demo_apps_no_chain :: "demo_model apps" where
  "demo_apps_no_chain app_label model_name =
     (if app_label = ''history'' \<and> model_name = ''Chain'' then Inl (Exception ''LookupError'')
      else demo_apps app_label model_name)"

definition demo_fixture :: "(demo_model \<times> nat) list" where
  "demo_fixture =
     [(Chain_model, 1), (SafeMasterCopy_model, 10), (ProxyFactory_model, 20),
      (ContractAbi_model, 30), (Contract_model, 40), (SafeContract_model, 50)]"

definition demo_loaddata ::
  "string \<Rightarrow> string \<Rightarrow> int \<Rightarrow> demo_world \<Rightarrow> py_exception option \<times> demo_world" where
  "demo_loaddata name arg verbosity w =
     (if name \<noteq> ''loaddata'' then (Some (Exception ''CommandError''), w)
      else if arg \<notin> set (files w) then (Some (Exception ''CommandError''), w)
      else if list_ex (\<lambda>(m, r). r \<in> set (tables w m)) demo_fixture
        then (Some (Exception ''IntegrityError''), w)
      else (None, w\<lparr>tables := \<lambda>m. tables w m @ map snd (filter (\<lambda>p. fst p = m) demo_fixture)\<rparr>))"


definition demo_delete :: "demo_model \<Rightarrow> demo_world \<Rightarrow> py_exception option \<times> demo_world" where
  "demo_delete m w = (None, w\<lparr>tables := (tables w)(m := [])\<rparr>)"

definition demo_env :: "(demo_world, demo_model) env" where
  "demo_env =
     \<lparr>path_exists = (\<lambda>w p. p \<in> set (files w)),
      run_command = demo_loaddata,
      delete_rows = demo_delete\<rparr>"

text \<open>The same store, where the delete of one model raises and changes nothing.\<close>

definition demo_env_delete_raises :: "demo_model \<Rightarrow> py_exception \<Rightarrow> (demo_world, demo_model) env" where
  "demo_env_delete_raises bad e =
     demo_env\<lparr>delete_rows := (\<lambda>m w. if m = bad then (Some e, w) else demo_delete m w)\<rparr>"

text \<open>The same store, where the loader is interrupted.\<close>

definition demo_env_load_raises :: "py_exception \<Rightarrow> (demo_world, demo_model) env" where
  "demo_env_load_raises e = demo_env\<lparr>run_command := (\<lambda>name arg verbosity w. (Some e, w))\<rparr>"

text \<open>The same store, where a second run of the loader is interrupted.\<close>

definition demo_env_second_load_interrupted :: "(demo_world, demo_model) env" where
  "demo_env_second_load_interrupted =
     demo_env\<lparr>run_command := (\<lambda>name arg verbosity w.
       if tables w Chain_model = [] then demo_loaddata name arg verbosity w
       else (Some KeyboardInterrupt, w))\<rparr>"

definition demo_seeded :: demo_world where
  "demo_seeded = \<lparr>files = [fixture_file], tables = (\<lambda>m. [1, 7])\<rparr>"

definition demo_fresh :: demo_world where
  "demo_fresh = \<lparr>files = [fixture_file], tables = (\<lambda>m. [])\<rparr>"


definition demo_no_file :: demo_world where
  "demo_no_file = \<lparr>files = [], tables = (\<lambda>m. [7, 8])\<rparr>"

definition start :: "'w \<Rightarrow> ('w, 'm) state" where
  "start w = \<lparr>world = w, calls = []\<rparr>"

section \<open>Properties\<close>

subsection \<open>Statements\<close>

lemma py_seq_apply:
  "py_seq f g s = (case f s of (Inl e, s') \<Rightarrow> (Inl e, s') | (Inr v, s') \<Rightarrow> g s')"
  by (simp add: py_seq_def py_bind_def)

lemma get_model_apply:
  "py_bind (get_model apps a n) g s =
     (case apps a n of
        Inl e \<Rightarrow> (Inl e, s\<lparr>calls := calls s @ [Get_model a n]\<rparr>)
      | Inr m \<Rightarrow> g m (s\<lparr>calls := calls s @ [Get_model a n]\<rparr>))"
  by (simp add: py_bind_def get_model_def split: sum.splits)

lemma py_seq_return: "py_seq f (py_return ()) = f"
  by (rule ext) (simp add: py_seq_apply py_return_def split: prod.splits sum.splits)

subsection \<open>A sequence of deletes\<close>

lemma delete_each_result:
  "fst (delete_each env ms s) = raise_or_return (fst (delete_seq env ms (world s)))"
  by (induction ms arbitrary: s)
     (auto simp: py_return_def py_seq_apply objects_all_delete_def raise_or_return_def
           split: prod.splits option.splits sum.splits)

lemma delete_each_world:
  "world (snd (delete_each env ms s)) = snd (delete_seq env ms (world s))"
  by (induction ms arbitrary: s)
     (auto simp: py_return_def py_seq_apply objects_all_delete_def raise_or_return_def
           split: prod.splits option.splits sum.splits)

lemma delete_each_calls_ok:
  "fst (delete_seq env ms (world s)) = None \<Longrightarrow>
   calls (snd (delete_each env ms s)) = calls s @ map Objects_all_delete ms"
  by (induction ms arbitrary: s)
     (auto simp: py_return_def py_seq_apply objects_all_delete_def raise_or_return_def
           split: prod.splits option.splits sum.splits)

text \<open>
  When the delete at position \<open>k\<close> is the first to raise, the sequence ends there: the
  deletes up to \<open>k\<close> have been called and no other, and the world is the one that the
  delete at \<open>k\<close> left.
\<close>

lemma delete_each_raise:
  "k < length ms \<Longrightarrow> fst (delete_seq env (take k ms) (world s)) = None \<Longrightarrow>
   delete_rows env (ms ! k) (snd (delete_seq env (take k ms) (world s))) = (Some e, w') \<Longrightarrow>
   delete_each env ms s =
     (Inl e, \<lparr>world = w', calls = calls s @ map Objects_all_delete (take (Suc k) ms)\<rparr>)"
proof (induction ms arbitrary: s k)
  case Nil
  then show ?case by simp
next
  case (Cons m ms)
  show ?case
  proof (cases k)
    case 0
    with Cons.prems show ?thesis
      by (simp add: py_seq_apply objects_all_delete_def raise_or_return_def)
  next
    case (Suc j)
    with Cons.prems obtain w1 where d: "delete_rows env m (world s) = (None, w1)"
      by (auto split: prod.splits option.splits)
    let ?s1 = "\<lparr>world = w1, calls = calls s @ [Objects_all_delete m]\<rparr>"
    from Cons.prems Suc d have "delete_each env ms ?s1 =
      (Inl e, \<lparr>world = w', calls = calls ?s1 @ map Objects_all_delete (take (Suc j) ms)\<rparr>)"
      by (intro Cons.IH) auto
    with d Suc show ?thesis
      by (simp add: py_seq_apply objects_all_delete_def raise_or_return_def)
  qed
qed

lemma delete_seq_raise_source:
  "fst (delete_seq env ms w) = Some e \<Longrightarrow>
   \<exists>m \<in> set ms. \<exists>w1 w2. delete_rows env m w1 = (Some e, w2)"
  by (induction ms arbitrary: w) (auto split: prod.splits option.splits)

subsection \<open>The reverse function once its lookups have resolved\<close>

lemma reverse_resolved:
  assumes "apps ''history'' ''SafeContract'' = Inr sc"
      and "apps ''history'' ''SafeMasterCopy'' = Inr smc"
      and "apps ''history'' ''ProxyFactory'' = Inr pf"
      and "apps ''contracts'' ''Contract'' = Inr c"
      and "apps ''contracts'' ''ContractAbi'' = Inr ca"
      and "apps ''history'' ''Chain'' = Inr ch"
  shows "reverse_initial_safe_data env apps se s =
           try_except_Exception_pass (delete_each env [sc, c, ca, smc, pf, ch])
             (s\<lparr>calls := calls s @ lookup_calls\<rparr>)"
  using assms
  by (simp add: reverse_initial_safe_data_def get_model_apply py_seq_return lookup_calls_def
        model_lookups_def)

subsection \<open>The try statement and the delete primitive\<close>

lemma try_result:
  "fst (try_except_Exception_pass body s) =
     (case fst (body s) of
        Inl e \<Rightarrow> if isinstance_Exception e then Inr () else Inl e
      | Inr v \<Rightarrow> Inr ())"
  by (simp add: try_except_Exception_pass_def split: prod.splits sum.splits)

lemma try_state: "snd (try_except_Exception_pass body s) = snd (body s)"
  by (simp add: try_except_Exception_pass_def split: prod.splits sum.splits)

lemma apply_result:
  "fst (load_initial_safe_data env apps se s) =
     (if path_exists env (world s) fixture_file
      then (case fst (run_command env ''loaddata'' fixture_file 0 (world s)) of
              None \<Rightarrow> Inr ()
            | Some e \<Rightarrow> if isinstance_Exception e then Inr () else Inl e)
      else Inr ())"
  by (simp add: load_initial_safe_data_def py_bind_def os_path_exists_def py_return_def
        try_except_Exception_pass_def call_command_def raise_or_return_def
      split: prod.splits option.splits sum.splits)

lemma apply_world:
  "world (snd (load_initial_safe_data env apps se s)) =
     (if path_exists env (world s) fixture_file
      then snd (run_command env ''loaddata'' fixture_file 0 (world s))
      else world s)"
  by (simp add: load_initial_safe_data_def py_bind_def os_path_exists_def py_return_def
        try_except_Exception_pass_def call_command_def raise_or_return_def
      split: prod.splits option.splits sum.splits)

lemma reverse_result:
  assumes "apps ''history'' ''SafeContract'' = Inr sc"
      and "apps ''history'' ''SafeMasterCopy'' = Inr smc"
      and "apps ''history'' ''ProxyFactory'' = Inr pf"
      and "apps ''contracts'' ''Contract'' = Inr c"
      and "apps ''contracts'' ''ContractAbi'' = Inr ca"
      and "apps ''history'' ''Chain'' = Inr ch"
  shows "fst (reverse_initial_safe_data env apps se s) =
           (case fst (delete_seq env [sc, c, ca, smc, pf, ch] (world s)) of
              None \<Rightarrow> Inr ()
            | Some e \<Rightarrow> if isinstance_Exception e then Inr () else Inl e)"
  unfolding reverse_resolved [OF assms] try_result delete_each_result
  by (simp add: raise_or_return_def split: option.splits)

lemma reverse_world:
  assumes "apps ''history'' ''SafeContract'' = Inr sc"
      and "apps ''history'' ''SafeMasterCopy'' = Inr smc"
      and "apps ''history'' ''ProxyFactory'' = Inr pf"
      and "apps ''contracts'' ''Contract'' = Inr c"
      and "apps ''contracts'' ''ContractAbi'' = Inr ca"
      and "apps ''history'' ''Chain'' = Inr ch"
  shows "world (snd (reverse_initial_safe_data env apps se s)) =
           snd (delete_seq env [sc, c, ca, smc, pf, ch] (world s))"
  unfolding reverse_resolved [OF assms] try_state delete_each_world by simp

text \<open>
  What is asked of a delete that returns: the table of its model is empty afterwards, and
  no table has gained a row. \<open>rows w m\<close> is the set of rows of the model \<open>m\<close> in the
  world \<open>w\<close>.
\<close>

lemma delete_seq_rows:
  assumes spec: "\<forall>m w w'. delete_rows env m w = (None, w') \<longrightarrow>
                   rows w' m = {} \<and> (\<forall>m'. rows w' m' \<subseteq> rows w m')"
  shows "fst (delete_seq env ms w) = None \<Longrightarrow>
         (\<forall>m \<in> set ms. rows (snd (delete_seq env ms w)) m = {}) \<and>
         (\<forall>m'. rows (snd (delete_seq env ms w)) m' \<subseteq> rows w m')"
proof (induction ms arbitrary: w)
  case Nil
  then show ?case by simp
next
  case (Cons m ms)
  from Cons.prems obtain w1 where d: "delete_rows env m w = (None, w1)"
    by (auto split: prod.splits option.splits)
  with Cons.prems have ok: "fst (delete_seq env ms w1) = None" by simp
  from spec d have e: "rows w1 m = {}" and f: "\<And>m'. rows w1 m' \<subseteq> rows w m'" by blast+
  from Cons.IH [OF ok] have
    a: "\<forall>x \<in> set ms. rows (snd (delete_seq env ms w1)) x = {}" and
    b: "\<And>m'. rows (snd (delete_seq env ms w1)) m' \<subseteq> rows w1 m'" by blast+
  have "rows (snd (delete_seq env ms w1)) m = {}" using b [of m] e by simp
  moreover have "rows (snd (delete_seq env ms w1)) m' \<subseteq> rows w m'" for m'
    using b [of m'] f [of m'] by (rule subset_trans)
  ultimately show ?case using d a by simp
qed

text \<open>A delete on an empty table that changes nothing makes the whole sequence change nothing.\<close>

lemma delete_seq_noop:
  assumes noop: "\<forall>m w. rows w m = {} \<longrightarrow> delete_rows env m w = (None, w)"
  shows "\<forall>m \<in> set ms. rows w m = {} \<Longrightarrow> delete_seq env ms w = (None, w)"
  using noop by (induction ms) auto

section \<open>The apply function\<close>

text \<open>
  Claim C4. When the fixture path does not exist, \<^verbatim>\<open>load_initial_safe_data\<close> returns
  at once and without an error: the existence test is the only external call it makes (the
  loader is not called), and the world, and so every row of the store, is as it was.
\<close>

theorem apply_missing_fixture:
  assumes "\<not> path_exists env (world s) fixture_file"
  shows "load_initial_safe_data env apps se s =
           (Inr (), s\<lparr>calls := calls s @ [Os_path_exists fixture_file]\<rparr>)"
  using assms
  by (simp add: load_initial_safe_data_def py_bind_def os_path_exists_def py_return_def)

theorem apply_missing_fixture_witness:
  "\<not> path_exists demo_env (world (start demo_no_file)) fixture_file \<and>
   load_initial_safe_data demo_env demo_apps () (start demo_no_file) =
     (Inr (), (start demo_no_file)\<lparr>calls := calls (start demo_no_file) @ [Os_path_exists fixture_file]\<rparr>) \<and>
   tables (world (snd (load_initial_safe_data demo_env demo_apps () (start demo_no_file))))
     Chain_model = [7, 8]"
proof -
  have h: "\<not> path_exists demo_env (world (start demo_no_file)) fixture_file"
    by (simp add: demo_env_def start_def demo_no_file_def)
  show ?thesis
    using h apply_missing_fixture [OF h, of demo_apps "()"]
    by (simp add: start_def demo_no_file_def)
qed

text \<open>
  Claim C5. When the fixture path exists, \<^verbatim>\<open>load_initial_safe_data\<close> calls the loader
  exactly once, as \<^verbatim>\<open>call_command('loaddata', fixture_file, verbosity=0)\<close>: after the
  existence test this is the only call, and the world afterwards is the one the loader
  left.
\<close>

theorem apply_calls_loader_once:
  assumes "path_exists env (world s) fixture_file"
  shows "calls (snd (load_initial_safe_data env apps se s)) =
           calls s @ [Os_path_exists fixture_file, Call_command ''loaddata'' fixture_file 0] \<and>
         world (snd (load_initial_safe_data env apps se s)) =
           snd (run_command env ''loaddata'' fixture_file 0 (world s))"
  using assms
  by (simp add: load_initial_safe_data_def py_bind_def os_path_exists_def
        try_except_Exception_pass_def call_command_def raise_or_return_def
      split: prod.splits option.splits sum.splits)

theorem apply_calls_loader_once_witness:
  "path_exists demo_env (world (start demo_fresh)) fixture_file \<and>
   calls (snd (load_initial_safe_data demo_env demo_apps () (start demo_fresh))) =
     [Os_path_exists fixture_file, Call_command ''loaddata'' fixture_file 0]"
proof -
  have h: "path_exists demo_env (world (start demo_fresh)) fixture_file"
    by (simp add: demo_env_def start_def demo_fresh_def)
  show ?thesis
    using h apply_calls_loader_once [OF h, of demo_apps "()"]
    by (simp add: start_def)
qed

text \<open>
  Claim C2, as stated, says that \<^verbatim>\<open>load_initial_safe_data\<close> returns normally whatever
  the loader does. The handler is \<^verbatim>\<open>except Exception\<close>, so this fails for an exception
  that is not an instance of \<^verbatim>\<open>Exception\<close>: a loader interrupted by
  \<^verbatim>\<open>KeyboardInterrupt\<close> makes the function raise.
\<close>

theorem apply_raises_KeyboardInterrupt:
  "fst (load_initial_safe_data (demo_env_load_raises KeyboardInterrupt) demo_apps ()
          (start demo_fresh)) = Inl KeyboardInterrupt"
  by (simp add: load_initial_safe_data_def py_bind_def os_path_exists_def py_return_def
        try_except_Exception_pass_def call_command_def raise_or_return_def
        demo_env_load_raises_def demo_env_def start_def demo_fresh_def)

text \<open>
  Claim C2, amended. For every state of the filesystem and every behaviour of the loader
  in which it returns or raises an instance of \<^verbatim>\<open>Exception\<close>,
  \<^verbatim>\<open>load_initial_safe_data\<close> returns normally.
\<close>

theorem apply_returns_on_Exception:
  assumes "\<forall>e. fst (run_command env ''loaddata'' fixture_file 0 (world s)) = Some e
             \<longrightarrow> isinstance_Exception e"
  shows "fst (load_initial_safe_data env apps se s) = Inr ()"
  using assms
  by (auto simp: load_initial_safe_data_def py_bind_def os_path_exists_def py_return_def
        try_except_Exception_pass_def call_command_def raise_or_return_def
      split: prod.splits option.splits sum.splits)

theorem apply_returns_on_Exception_witness:
  "isinstance_Exception (Exception ''IntegrityError'') \<and>
   fst (run_command demo_env ''loaddata'' fixture_file 0 (world (start demo_seeded))) =
     Some (Exception ''IntegrityError'') \<and>
   fst (load_initial_safe_data demo_env demo_apps () (start demo_seeded)) = Inr ()"
proof -
  have r: "fst (run_command demo_env ''loaddata'' fixture_file 0 (world (start demo_seeded))) =
     Some (Exception ''IntegrityError'')"
    by (simp add: demo_env_def demo_loaddata_def start_def demo_seeded_def demo_fixture_def)
  have h: "\<forall>e. fst (run_command demo_env ''loaddata'' fixture_file 0 (world (start demo_seeded))) = Some e
      \<longrightarrow> isinstance_Exception e"
    by (simp add: r)
  show ?thesis
    using h r apply_returns_on_Exception [OF h, of demo_apps "()"]
    by simp
qed




text \<open>
  Claim C10. \<^verbatim>\<open>load_initial_safe_data\<close> reads neither \<^verbatim>\<open>apps\<close> nor
  \<^verbatim>\<open>schema_editor\<close>: with the same world and the same external behaviour, two calls
  with different arguments give the same result, the same calls and the same world.
  \<^verbatim>\<open>reverse_initial_safe_data\<close> does not read \<^verbatim>\<open>schema_editor\<close>.
\<close>

theorem context_not_read:
  "load_initial_safe_data env apps se s = load_initial_safe_data env apps' se' s \<and>
   reverse_initial_safe_data env apps se s = reverse_initial_safe_data env apps se' s"
  by (simp add: load_initial_safe_data_def reverse_initial_safe_data_def)

section \<open>The reverse function\<close>

text \<open>
  Claim C3, as stated, has no condition but that no delete raises. The lookups come first:
  with a registry that has no model \<^verbatim>\<open>Chain\<close> the sixth lookup raises, so that no delete
  raises because none is called, and the tables keep their rows.
\<close>

theorem reverse_without_Chain_deletes_nothing:
  "fst (reverse_initial_safe_data demo_env demo_apps_no_chain () (start demo_seeded)) =
     Inl (Exception ''LookupError'') \<and>
   calls (snd (reverse_initial_safe_data demo_env demo_apps_no_chain () (start demo_seeded))) =
     lookup_calls \<and>
   demo_rows (world (snd (reverse_initial_safe_data demo_env demo_apps_no_chain ()
     (start demo_seeded)))) SafeContract_model = {1, 7} \<and>
   demo_rows (world (snd (reverse_initial_safe_data demo_env demo_apps_no_chain ()
     (start demo_seeded)))) SafeContract_model \<noteq> {}"
  by (simp add: reverse_initial_safe_data_def get_model_apply demo_apps_no_chain_def
        demo_apps_def start_def demo_seeded_def demo_rows_def lookup_calls_def model_lookups_def)

text \<open>
  Claim C3, amended. When the six lookups resolve and no delete raises,
  \<^verbatim>\<open>reverse_initial_safe_data\<close> returns normally after calling delete-all-rows on
  exactly six models, in the order SafeContract, Contract, ContractAbi, SafeMasterCopy,
  ProxyFactory, Chain. With a delete primitive that empties the table of its model and adds
  no row anywhere, all six tables are empty afterwards, whatever rows the store held before.
\<close>

theorem reverse_deletes_six_in_order:
  assumes "apps ''history'' ''SafeContract'' = Inr sc"
      and "apps ''history'' ''SafeMasterCopy'' = Inr smc"
      and "apps ''history'' ''ProxyFactory'' = Inr pf"
      and "apps ''contracts'' ''Contract'' = Inr c"
      and "apps ''contracts'' ''ContractAbi'' = Inr ca"
      and "apps ''history'' ''Chain'' = Inr ch"
      and ok: "fst (delete_seq env [sc, c, ca, smc, pf, ch] (world s)) = None"
      and spec: "\<forall>m w w'. delete_rows env m w = (None, w') \<longrightarrow>
                   rows w' m = {} \<and> (\<forall>m'. rows w' m' \<subseteq> rows w m')"
  shows "fst (reverse_initial_safe_data env apps se s) = Inr () \<and>
         calls (snd (reverse_initial_safe_data env apps se s)) =
           calls s @ lookup_calls @
           [Objects_all_delete sc, Objects_all_delete c, Objects_all_delete ca,
            Objects_all_delete smc, Objects_all_delete pf, Objects_all_delete ch] \<and>
         (\<forall>m \<in> {sc, c, ca, smc, pf, ch}.
            rows (world (snd (reverse_initial_safe_data env apps se s))) m = {})"
proof -
  let ?ms = "[sc, c, ca, smc, pf, ch]"
  let ?s = "s\<lparr>calls := calls s @ lookup_calls\<rparr>"
  have r: "reverse_initial_safe_data env apps se s =
             try_except_Exception_pass (delete_each env ?ms) ?s"
    using assms(1-6) by (rule reverse_resolved)
  have ok': "fst (delete_seq env ?ms (world ?s)) = None" using ok by simp
  have "fst (delete_each env ?ms ?s) = Inr ()"
    unfolding delete_each_result ok' by (simp add: raise_or_return_def)
  then have 1: "fst (reverse_initial_safe_data env apps se s) = Inr ()"
    unfolding r try_result by simp
  have 2: "calls (snd (reverse_initial_safe_data env apps se s)) =
             calls s @ lookup_calls @ map Objects_all_delete ?ms"
    unfolding r try_state using delete_each_calls_ok [OF ok'] by simp
  have w: "world (snd (reverse_initial_safe_data env apps se s)) =
             snd (delete_seq env ?ms (world s))"
    unfolding r try_state delete_each_world by simp
  have 3: "\<forall>m \<in> set ?ms. rows (world (snd (reverse_initial_safe_data env apps se s))) m = {}"
    unfolding w using delete_seq_rows [OF spec ok] by blast
  from 1 2 3 show ?thesis by simp
qed

theorem reverse_deletes_six_in_order_witness:
  "fst (delete_seq demo_env
          [SafeContract_model, Contract_model, ContractAbi_model, SafeMasterCopy_model,
           ProxyFactory_model, Chain_model] (world (start demo_seeded))) = None \<and>
   demo_rows demo_seeded Chain_model = {1, 7} \<and>
   fst (reverse_initial_safe_data demo_env demo_apps () (start demo_seeded)) = Inr () \<and>
   calls (snd (reverse_initial_safe_data demo_env demo_apps () (start demo_seeded))) =
     lookup_calls @
     [Objects_all_delete SafeContract_model, Objects_all_delete Contract_model,
      Objects_all_delete ContractAbi_model, Objects_all_delete SafeMasterCopy_model,
      Objects_all_delete ProxyFactory_model, Objects_all_delete Chain_model] \<and>
   demo_rows (world (snd (reverse_initial_safe_data demo_env demo_apps () (start demo_seeded))))
     Chain_model = {} \<and>
   demo_rows (world (snd (reverse_initial_safe_data demo_env demo_apps () (start demo_seeded))))
     SafeContract_model = {}"
proof -
  have ok: "fst (delete_seq demo_env
          [SafeContract_model, Contract_model, ContractAbi_model, SafeMasterCopy_model,
           ProxyFactory_model, Chain_model] (world (start demo_seeded))) = None"
    by (simp add: demo_env_def demo_delete_def)
  have spec: "\<forall>m w w'. delete_rows demo_env m w = (None, w') \<longrightarrow>
                   demo_rows w' m = {} \<and> (\<forall>m'. demo_rows w' m' \<subseteq> demo_rows w m')"
    by (auto simp: demo_env_def demo_delete_def demo_rows_def)
  have seeded: "demo_rows demo_seeded Chain_model = {1, 7}"
    by (simp add: demo_rows_def demo_seeded_def)
  show ?thesis
    using ok seeded
      reverse_deletes_six_in_order [of demo_apps SafeContract_model SafeMasterCopy_model
        ProxyFactory_model Contract_model ContractAbi_model Chain_model demo_env
        "start demo_seeded" demo_rows "()", OF _ _ _ _ _ _ ok spec]
    by (simp add: demo_apps_def start_def)
qed

text \<open>
  Claim C9. The six lookups come before the try statement. When one of them raises,
  \<^verbatim>\<open>reverse_initial_safe_data\<close> raises the exception of the first lookup that does,
  whatever its class; the lookups up to that one are the only calls made, so no delete
  runs and the world is as it was.
\<close>

theorem reverse_lookup_raise_propagates:
  assumes "(a, n) \<in> set model_lookups" and "apps a n = Inl e0"
  shows "\<exists>e k. first_raise apps model_lookups = Some e \<and> k < 6 \<and>
           reverse_initial_safe_data env apps se s =
             (Inl e, s\<lparr>calls := calls s @ take (Suc k) lookup_calls\<rparr>)"
proof -
  have "\<exists>e. \<exists>k \<in> {0, 1, 2, 3, 4, 5}. first_raise apps model_lookups = Some e \<and>
           reverse_initial_safe_data env apps se s =
             (Inl e, s\<lparr>calls := calls s @ take (Suc k) lookup_calls\<rparr>)"
    using assms
    by (auto simp: reverse_initial_safe_data_def get_model_apply model_lookups_def
          lookup_calls_def split: sum.splits)
  then obtain e k where k: "k \<in> {0, 1, 2, 3, 4, 5::nat}"
    and r: "first_raise apps model_lookups = Some e"
      "reverse_initial_safe_data env apps se s =
         (Inl e, s\<lparr>calls := calls s @ take (Suc k) lookup_calls\<rparr>)"
    by blast
  from k have "k < 6" by auto
  with r show ?thesis by blast
qed

theorem reverse_lookup_raise_propagates_witness:
  "(''contracts'', ''Contract'') \<in> set model_lookups \<and>
   demo_apps_history_only ''contracts'' ''Contract'' = Inl (Exception ''LookupError'') \<and>
   fst (reverse_initial_safe_data demo_env demo_apps_history_only () (start demo_seeded)) =
     Inl (Exception ''LookupError'') \<and>
   world (snd (reverse_initial_safe_data demo_env demo_apps_history_only () (start demo_seeded))) =
     demo_seeded \<and>
   calls (snd (reverse_initial_safe_data demo_env demo_apps_history_only () (start demo_seeded))) =
     [Get_model ''history'' ''SafeContract'', Get_model ''history'' ''SafeMasterCopy'',
      Get_model ''history'' ''ProxyFactory'', Get_model ''contracts'' ''Contract'']"
proof -
  have m: "(''contracts'', ''Contract'') \<in> set model_lookups"
    by (simp add: model_lookups_def)
  have l: "demo_apps_history_only ''contracts'' ''Contract'' = Inl (Exception ''LookupError'')"
    by (simp add: demo_apps_history_only_def)
  have f: "first_raise demo_apps_history_only model_lookups = Some (Exception ''LookupError'')"
    by (simp add: model_lookups_def demo_apps_history_only_def demo_apps_def)
  from reverse_lookup_raise_propagates
    [where apps = demo_apps_history_only and env = demo_env and se = "()"
       and s = "start demo_seeded", OF m l]
  obtain e k where "first_raise demo_apps_history_only model_lookups = Some e" and
    r: "reverse_initial_safe_data demo_env demo_apps_history_only () (start demo_seeded) =
          (Inl e, (start demo_seeded)\<lparr>calls := calls (start demo_seeded) @ take (Suc k) lookup_calls\<rparr>)"
    by blast
  with f have e: "e = Exception ''LookupError''" by simp
  have a: "fst (reverse_initial_safe_data demo_env demo_apps_history_only () (start demo_seeded)) =
             Inl (Exception ''LookupError'') \<and>
           world (snd (reverse_initial_safe_data demo_env demo_apps_history_only ()
             (start demo_seeded))) = demo_seeded"
    unfolding r e by (simp add: start_def)
  have b: "calls (snd (reverse_initial_safe_data demo_env demo_apps_history_only ()
             (start demo_seeded))) =
     [Get_model ''history'' ''SafeContract'', Get_model ''history'' ''SafeMasterCopy'',
      Get_model ''history'' ''ProxyFactory'', Get_model ''contracts'' ''Contract'']"
    by (simp add: reverse_initial_safe_data_def get_model_apply demo_apps_history_only_def
          demo_apps_def start_def)
  from m l a b show ?thesis by simp
qed

text \<open>
  Claim C1, as stated, says that \<^verbatim>\<open>reverse_initial_safe_data\<close> never raises. It does
  when a delete raises an exception that is not an instance of \<^verbatim>\<open>Exception\<close>, and
  when a lookup raises: here the delete of SafeContract is interrupted, and then the
  registry has no application \<^verbatim>\<open>contracts\<close>.
\<close>

theorem reverse_raises:
  "fst (reverse_initial_safe_data (demo_env_delete_raises SafeContract_model KeyboardInterrupt)
          demo_apps () (start demo_seeded)) = Inl KeyboardInterrupt \<and>
   fst (reverse_initial_safe_data demo_env demo_apps_history_only () (start demo_seeded)) =
     Inl (Exception ''LookupError'')"
  by (simp add: reverse_initial_safe_data_def get_model_apply demo_apps_def
        demo_apps_history_only_def try_except_Exception_pass_def py_seq_apply
        objects_all_delete_def raise_or_return_def demo_env_delete_raises_def demo_env_def)

text \<open>
  Claim C1, amended. When the six lookups resolve, then for every state of the store and
  every behaviour of the deletes in which each returns or raises an instance of
  \<^verbatim>\<open>Exception\<close>, \<^verbatim>\<open>reverse_initial_safe_data\<close> returns normally.
\<close>

theorem reverse_returns_on_Exception:
  assumes "apps ''history'' ''SafeContract'' = Inr sc"
      and "apps ''history'' ''SafeMasterCopy'' = Inr smc"
      and "apps ''history'' ''ProxyFactory'' = Inr pf"
      and "apps ''contracts'' ''Contract'' = Inr c"
      and "apps ''contracts'' ''ContractAbi'' = Inr ca"
      and "apps ''history'' ''Chain'' = Inr ch"
      and exc: "\<forall>m w e w'. delete_rows env m w = (Some e, w') \<longrightarrow> isinstance_Exception e"
  shows "fst (reverse_initial_safe_data env apps se s) = Inr ()"
proof -
  let ?ms = "[sc, c, ca, smc, pf, ch]"
  let ?s = "s\<lparr>calls := calls s @ lookup_calls\<rparr>"
  have r: "reverse_initial_safe_data env apps se s =
             try_except_Exception_pass (delete_each env ?ms) ?s"
    using assms(1-6) by (rule reverse_resolved)
  show ?thesis
  proof (cases "fst (delete_seq env ?ms (world ?s))")
    case None
    then show ?thesis
      unfolding r try_result delete_each_result by (simp add: raise_or_return_def)
  next
    case (Some e)
    from delete_seq_raise_source [OF Some] exc have "isinstance_Exception e" by blast
    with Some show ?thesis
      unfolding r try_result delete_each_result by (simp add: raise_or_return_def)
  qed
qed

theorem reverse_returns_on_Exception_witness:
  "delete_rows (demo_env_delete_raises ContractAbi_model (Exception ''ProtectedError''))
     ContractAbi_model demo_seeded = (Some (Exception ''ProtectedError''), demo_seeded) \<and>
   fst (reverse_initial_safe_data
          (demo_env_delete_raises ContractAbi_model (Exception ''ProtectedError''))
          demo_apps () (start demo_seeded)) = Inr ()"
proof -
  let ?env = "demo_env_delete_raises ContractAbi_model (Exception ''ProtectedError'')"
  have exc: "\<forall>m w e w'. delete_rows ?env m w = (Some e, w') \<longrightarrow> isinstance_Exception e"
    by (auto simp: demo_env_delete_raises_def demo_env_def demo_delete_def split: if_splits)
  have d: "delete_rows ?env ContractAbi_model demo_seeded =
             (Some (Exception ''ProtectedError''), demo_seeded)"
    by (simp add: demo_env_delete_raises_def demo_env_def)
  show ?thesis
    using d
      reverse_returns_on_Exception [of demo_apps SafeContract_model SafeMasterCopy_model
        ProxyFactory_model Contract_model ContractAbi_model Chain_model ?env
        "()" "start demo_seeded", OF _ _ _ _ _ _ exc]
    by (simp add: demo_apps_def)
qed

text \<open>
  Claim C6, as stated, says that \<^verbatim>\<open>reverse_initial_safe_data\<close> does not raise when the
  delete at a position raises. With \<^verbatim>\<open>SystemExit\<close> raised by the last delete, the one
  of Chain, it does.
\<close>

theorem reverse_raises_SystemExit:
  "fst (reverse_initial_safe_data (demo_env_delete_raises Chain_model SystemExit)
          demo_apps () (start demo_seeded)) = Inl SystemExit"
  by (simp add: reverse_initial_safe_data_def get_model_apply demo_apps_def
        try_except_Exception_pass_def py_seq_apply demo_delete_def
        objects_all_delete_def raise_or_return_def demo_env_delete_raises_def demo_env_def)

text \<open>
  Claim C6, amended. Let the six lookups resolve, and let the delete at position \<open>k\<close> of
  the six be the first that raises, with the exception \<open>e\<close>. Then
  \<^verbatim>\<open>reverse_initial_safe_data\<close> returns normally when \<open>e\<close> is an instance of
  \<^verbatim>\<open>Exception\<close> and raises \<open>e\<close> otherwise. In both cases the deletes at the positions
  after \<open>k\<close> are not called, and the world is the one that the delete at \<open>k\<close> left when
  run after the deletes before it: nothing undoes what these did.
\<close>

theorem reverse_delete_raises_at:
  assumes "apps ''history'' ''SafeContract'' = Inr sc"
      and "apps ''history'' ''SafeMasterCopy'' = Inr smc"
      and "apps ''history'' ''ProxyFactory'' = Inr pf"
      and "apps ''contracts'' ''Contract'' = Inr c"
      and "apps ''contracts'' ''ContractAbi'' = Inr ca"
      and "apps ''history'' ''Chain'' = Inr ch"
      and k: "k < 6"
      and ok: "fst (delete_seq env (take k [sc, c, ca, smc, pf, ch]) (world s)) = None"
      and d: "delete_rows env ([sc, c, ca, smc, pf, ch] ! k)
                (snd (delete_seq env (take k [sc, c, ca, smc, pf, ch]) (world s))) = (Some e, w')"
  shows "reverse_initial_safe_data env apps se s =
           (if isinstance_Exception e then Inr () else Inl e,
            \<lparr>world = w',
             calls = calls s @ lookup_calls @
                     map Objects_all_delete (take (Suc k) [sc, c, ca, smc, pf, ch])\<rparr>)"
proof -
  let ?ms = "[sc, c, ca, smc, pf, ch]"
  let ?s = "s\<lparr>calls := calls s @ lookup_calls\<rparr>"
  have r: "reverse_initial_safe_data env apps se s =
             try_except_Exception_pass (delete_each env ?ms) ?s"
    using assms(1-6) by (rule reverse_resolved)
  have len: "k < length ?ms" using k by simp
  have ok': "fst (delete_seq env (take k ?ms) (world ?s)) = None" using ok by simp
  have d': "delete_rows env (?ms ! k) (snd (delete_seq env (take k ?ms) (world ?s))) = (Some e, w')"
    using d by simp
  have "delete_each env ?ms ?s =
          (Inl e, \<lparr>world = w', calls = calls ?s @ map Objects_all_delete (take (Suc k) ?ms)\<rparr>)"
    using len ok' d' by (rule delete_each_raise)
  then show ?thesis
    unfolding r by (simp add: try_except_Exception_pass_def)
qed

theorem reverse_delete_raises_at_witness:
  "isinstance_Exception (Exception ''ProtectedError'') \<and>
   reverse_initial_safe_data
     (demo_env_delete_raises SafeMasterCopy_model (Exception ''ProtectedError''))
     demo_apps () (start demo_seeded) =
     (Inr (),
      \<lparr>world = demo_seeded\<lparr>tables := (tables demo_seeded)
           (SafeContract_model := [], Contract_model := [], ContractAbi_model := [])\<rparr>,
       calls = lookup_calls @
         [Objects_all_delete SafeContract_model, Objects_all_delete Contract_model,
          Objects_all_delete ContractAbi_model, Objects_all_delete SafeMasterCopy_model]\<rparr>) \<and>
   tables (world (snd (reverse_initial_safe_data
     (demo_env_delete_raises SafeMasterCopy_model (Exception ''ProtectedError''))
     demo_apps () (start demo_seeded)))) SafeContract_model = [] \<and>
   tables (world (snd (reverse_initial_safe_data
     (demo_env_delete_raises SafeMasterCopy_model (Exception ''ProtectedError''))
     demo_apps () (start demo_seeded)))) Chain_model = [1, 7]"
proof -
  let ?env = "demo_env_delete_raises SafeMasterCopy_model (Exception ''ProtectedError'')"
  let ?ms = "[SafeContract_model, Contract_model, ContractAbi_model, SafeMasterCopy_model,
           ProxyFactory_model, Chain_model]"
  let ?w = "demo_seeded\<lparr>tables := (tables demo_seeded)
           (SafeContract_model := [], Contract_model := [], ContractAbi_model := [])\<rparr>"
  have seq: "delete_seq ?env (take 3 ?ms) (world (start demo_seeded)) = (None, ?w)"
    by (simp add: demo_env_delete_raises_def demo_env_def demo_delete_def start_def)
  have ok: "fst (delete_seq ?env (take 3 ?ms) (world (start demo_seeded))) = None"
    by (simp only: seq fst_conv)
  have d: "delete_rows ?env (?ms ! 3) (snd (delete_seq ?env (take 3 ?ms) (world (start demo_seeded))))
             = (Some (Exception ''ProtectedError''), ?w)"
    unfolding seq by (simp add: demo_env_delete_raises_def demo_env_def)
  have k: "(3::nat) < 6" by simp
  show ?thesis
    using reverse_delete_raises_at [of demo_apps SafeContract_model SafeMasterCopy_model
        ProxyFactory_model Contract_model ContractAbi_model Chain_model 3 ?env
        "start demo_seeded" "Exception ''ProtectedError''" ?w "()", OF _ _ _ _ _ _ k ok d]
    by (simp add: demo_apps_def start_def demo_seeded_def)
qed

section \<open>Running the functions twice\<close>

text \<open>
  Claim C7, as stated, says that neither function raises when called twice. Here a first
  apply loads the fixture and the second is interrupted in the loader, which is not a
  duplicate-key error and is not caught; and with a registry that lacks the application
  \<^verbatim>\<open>contracts\<close> a reverse raises, the second as the first.
\<close>

theorem second_call_raises:
  "fst (load_initial_safe_data demo_env_second_load_interrupted demo_apps ()
          (start demo_fresh)) = Inr () \<and>
   fst (load_initial_safe_data demo_env_second_load_interrupted demo_apps ()
          (snd (load_initial_safe_data demo_env_second_load_interrupted demo_apps ()
                  (start demo_fresh)))) = Inl KeyboardInterrupt \<and>
   fst (reverse_initial_safe_data demo_env demo_apps_history_only ()
          (snd (reverse_initial_safe_data demo_env demo_apps_history_only ()
                  (start demo_seeded)))) = Inl (Exception ''LookupError'')"
  by (simp add: apply_result apply_world demo_env_second_load_interrupted_def demo_env_def
        demo_loaddata_def start_def demo_fresh_def demo_fixture_def
        reverse_initial_safe_data_def get_model_apply demo_apps_history_only_def demo_apps_def)

text \<open>
  Claim C7, amended. When the loader, at each of the two calls, returns or raises an
  instance of \<^verbatim>\<open>Exception\<close> (a duplicate-key error is one),
  \<^verbatim>\<open>load_initial_safe_data\<close> called twice does not raise. When the six lookups resolve
  and the deletes raise nothing but instances of \<^verbatim>\<open>Exception\<close>,
  \<^verbatim>\<open>reverse_initial_safe_data\<close> called twice does not raise. When the six lookups
  resolve, no delete of the first reverse raises, a delete that returns empties the table
  of its model and adds no row anywhere, and a delete on an empty table returns and changes
  nothing, neither reverse raises and the store after the second reverse is the store
  after the first.
\<close>

theorem apply_twice_reverse_twice:
  "((\<forall>e. fst (run_command env ''loaddata'' fixture_file 0 (world s)) = Some e
          \<longrightarrow> isinstance_Exception e) \<and>
    (\<forall>e. fst (run_command env ''loaddata'' fixture_file 0
                 (world (snd (load_initial_safe_data env apps0 se s)))) = Some e
          \<longrightarrow> isinstance_Exception e) \<longrightarrow>
      fst (load_initial_safe_data env apps0 se s) = Inr () \<and>
      fst (load_initial_safe_data env apps0 se (snd (load_initial_safe_data env apps0 se s))) =
        Inr ()) \<and>
   (apps ''history'' ''SafeContract'' = Inr sc \<and>
    apps ''history'' ''SafeMasterCopy'' = Inr smc \<and>
    apps ''history'' ''ProxyFactory'' = Inr pf \<and>
    apps ''contracts'' ''Contract'' = Inr c \<and>
    apps ''contracts'' ''ContractAbi'' = Inr ca \<and>
    apps ''history'' ''Chain'' = Inr ch \<longrightarrow>
      ((\<forall>m w e w'. delete_rows env m w = (Some e, w') \<longrightarrow> isinstance_Exception e) \<longrightarrow>
         fst (reverse_initial_safe_data env apps se t) = Inr () \<and>
         fst (reverse_initial_safe_data env apps se
                (snd (reverse_initial_safe_data env apps se t))) = Inr ()) \<and>
      ((\<forall>m w w'. delete_rows env m w = (None, w') \<longrightarrow>
            rows w' m = {} \<and> (\<forall>m'. rows w' m' \<subseteq> rows w m')) \<and>
       (\<forall>m w. rows w m = {} \<longrightarrow> delete_rows env m w = (None, w)) \<and>
       fst (delete_seq env [sc, c, ca, smc, pf, ch] (world t)) = None \<longrightarrow>
         fst (reverse_initial_safe_data env apps se t) = Inr () \<and>
         fst (reverse_initial_safe_data env apps se
                (snd (reverse_initial_safe_data env apps se t))) = Inr () \<and>
         world (snd (reverse_initial_safe_data env apps se
                  (snd (reverse_initial_safe_data env apps se t)))) =
         world (snd (reverse_initial_safe_data env apps se t))))"
proof (intro conjI impI)
  let ?ms = "[sc, c, ca, smc, pf, ch]"
  have a: "fst (load_initial_safe_data env apps0 se u) = Inr ()"
    if "\<forall>e. fst (run_command env ''loaddata'' fixture_file 0 (world u)) = Some e
          \<longrightarrow> isinstance_Exception e" for u
    using that by (auto simp: apply_result split: option.splits)
  {
    assume h: "(\<forall>e. fst (run_command env ''loaddata'' fixture_file 0 (world s)) = Some e
          \<longrightarrow> isinstance_Exception e) \<and>
      (\<forall>e. fst (run_command env ''loaddata'' fixture_file 0
                 (world (snd (load_initial_safe_data env apps0 se s)))) = Some e
          \<longrightarrow> isinstance_Exception e)"
    from h show "fst (load_initial_safe_data env apps0 se s) = Inr ()"
      by (intro a) blast
    from h show "fst (load_initial_safe_data env apps0 se
        (snd (load_initial_safe_data env apps0 se s))) = Inr ()"
      by (intro a) blast
  }
  assume L: "apps ''history'' ''SafeContract'' = Inr sc \<and>
    apps ''history'' ''SafeMasterCopy'' = Inr smc \<and>
    apps ''history'' ''ProxyFactory'' = Inr pf \<and>
    apps ''contracts'' ''Contract'' = Inr c \<and>
    apps ''contracts'' ''ContractAbi'' = Inr ca \<and>
    apps ''history'' ''Chain'' = Inr ch"
  then have l: "apps ''history'' ''SafeContract'' = Inr sc"
        "apps ''history'' ''SafeMasterCopy'' = Inr smc"
        "apps ''history'' ''ProxyFactory'' = Inr pf"
        "apps ''contracts'' ''Contract'' = Inr c"
        "apps ''contracts'' ''ContractAbi'' = Inr ca"
        "apps ''history'' ''Chain'' = Inr ch"
    by simp_all
  {
    assume del_exc: "\<forall>m w e w'. delete_rows env m w = (Some e, w') \<longrightarrow> isinstance_Exception e"
    have b: "fst (reverse_initial_safe_data env apps se u) = Inr ()" for u
    proof (cases "fst (delete_seq env ?ms (world u))")
      case None
      then show ?thesis by (simp add: reverse_result [OF l])
    next
      case (Some e)
      from delete_seq_raise_source [OF Some] del_exc have "isinstance_Exception e" by blast
      with Some show ?thesis by (simp add: reverse_result [OF l])
    qed
    show "fst (reverse_initial_safe_data env apps se t) = Inr ()" by (rule b)
    show "fst (reverse_initial_safe_data env apps se
                (snd (reverse_initial_safe_data env apps se t))) = Inr ()" by (rule b)
  }
  assume h: "(\<forall>m w w'. delete_rows env m w = (None, w') \<longrightarrow>
            rows w' m = {} \<and> (\<forall>m'. rows w' m' \<subseteq> rows w m')) \<and>
       (\<forall>m w. rows w m = {} \<longrightarrow> delete_rows env m w = (None, w)) \<and>
       fst (delete_seq env [sc, c, ca, smc, pf, ch] (world t)) = None"
  then have spec: "\<forall>m w w'. delete_rows env m w = (None, w') \<longrightarrow>
            rows w' m = {} \<and> (\<forall>m'. rows w' m' \<subseteq> rows w m')"
    and noop: "\<forall>m w. rows w m = {} \<longrightarrow> delete_rows env m w = (None, w)"
    and ok: "fst (delete_seq env ?ms (world t)) = None"
    by blast+
  let ?w1 = "snd (delete_seq env ?ms (world t))"
  from delete_seq_rows [OF spec ok] have "\<forall>m \<in> set ?ms. rows ?w1 m = {}" by blast
  then have again: "delete_seq env ?ms ?w1 = (None, ?w1)" by (rule delete_seq_noop [OF noop])
  show "fst (reverse_initial_safe_data env apps se t) = Inr ()"
    using ok by (simp add: reverse_result [OF l])
  show "fst (reverse_initial_safe_data env apps se
                (snd (reverse_initial_safe_data env apps se t))) = Inr ()"
    using again by (simp add: reverse_result [OF l] reverse_world [OF l])
  show "world (snd (reverse_initial_safe_data env apps se
                  (snd (reverse_initial_safe_data env apps se t)))) =
         world (snd (reverse_initial_safe_data env apps se t))"
    using again by (simp add: reverse_world [OF l])
qed

theorem apply_twice_reverse_twice_witness:
  "fst (load_initial_safe_data demo_env demo_apps () (start demo_fresh)) = Inr () \<and>
   fst (run_command demo_env ''loaddata'' fixture_file 0 (world (start demo_fresh))) = None \<and>
   fst (run_command demo_env ''loaddata'' fixture_file 0
          (world (snd (load_initial_safe_data demo_env demo_apps () (start demo_fresh))))) =
     Some (Exception ''IntegrityError'') \<and>
   fst (load_initial_safe_data demo_env demo_apps ()
          (snd (load_initial_safe_data demo_env demo_apps () (start demo_fresh)))) = Inr () \<and>
   fst (reverse_initial_safe_data demo_env demo_apps () (start demo_seeded)) = Inr () \<and>
   fst (reverse_initial_safe_data demo_env demo_apps ()
          (snd (reverse_initial_safe_data demo_env demo_apps () (start demo_seeded)))) = Inr () \<and>
   fst (delete_seq demo_env
          [SafeContract_model, Contract_model, ContractAbi_model, SafeMasterCopy_model,
           ProxyFactory_model, Chain_model] (world (start demo_seeded))) = None \<and>
   world (snd (reverse_initial_safe_data demo_env demo_apps ()
          (snd (reverse_initial_safe_data demo_env demo_apps () (start demo_seeded))))) =
   world (snd (reverse_initial_safe_data demo_env demo_apps () (start demo_seeded))) \<and>
   tables (world (snd (reverse_initial_safe_data demo_env demo_apps () (start demo_seeded))))
     Chain_model = []"
proof -
  let ?ms = "[SafeContract_model, Contract_model, ContractAbi_model, SafeMasterCopy_model,
           ProxyFactory_model, Chain_model]"
  have first: "fst (run_command demo_env ''loaddata'' fixture_file 0 (world (start demo_fresh))) =
      None"
    by (simp add: demo_env_def demo_loaddata_def start_def demo_fresh_def demo_fixture_def)
  have dup: "fst (run_command demo_env ''loaddata'' fixture_file 0
          (world (snd (load_initial_safe_data demo_env demo_apps () (start demo_fresh))))) =
     Some (Exception ''IntegrityError'')"
    by (simp add: apply_world demo_env_def demo_loaddata_def start_def demo_fresh_def
          demo_fixture_def)
  have load_exc:
    "(\<forall>e. fst (run_command demo_env ''loaddata'' fixture_file 0 (world (start demo_fresh))) =
          Some e \<longrightarrow> isinstance_Exception e) \<and>
     (\<forall>e. fst (run_command demo_env ''loaddata'' fixture_file 0
          (world (snd (load_initial_safe_data demo_env demo_apps () (start demo_fresh))))) =
          Some e \<longrightarrow> isinstance_Exception e)"
    unfolding first dup by simp
  have del_exc: "\<forall>m w e w'. delete_rows demo_env m w = (Some e, w') \<longrightarrow> isinstance_Exception e"
    by (simp add: demo_env_def demo_delete_def)
  have spec: "\<forall>m w w'. delete_rows demo_env m w = (None, w') \<longrightarrow>
                   demo_rows w' m = {} \<and> (\<forall>m'. demo_rows w' m' \<subseteq> demo_rows w m')"
    by (auto simp: demo_env_def demo_delete_def demo_rows_def)
  have noop: "\<forall>m w. demo_rows w m = {} \<longrightarrow> delete_rows demo_env m w = (None, w)"
    by (simp add: demo_env_def demo_delete_def demo_rows_def fun_upd_idem)
  have ok: "fst (delete_seq demo_env ?ms (world (start demo_seeded))) = None"
    by (simp add: demo_env_def demo_delete_def)
  have l: "demo_apps ''history'' ''SafeContract'' = Inr SafeContract_model"
      "demo_apps ''history'' ''SafeMasterCopy'' = Inr SafeMasterCopy_model"
      "demo_apps ''history'' ''ProxyFactory'' = Inr ProxyFactory_model"
      "demo_apps ''contracts'' ''Contract'' = Inr Contract_model"
      "demo_apps ''contracts'' ''ContractAbi'' = Inr ContractAbi_model"
      "demo_apps ''history'' ''Chain'' = Inr Chain_model"
    by (simp_all add: demo_apps_def)
  have L: "demo_apps ''history'' ''SafeContract'' = Inr SafeContract_model \<and>
      demo_apps ''history'' ''SafeMasterCopy'' = Inr SafeMasterCopy_model \<and>
      demo_apps ''history'' ''ProxyFactory'' = Inr ProxyFactory_model \<and>
      demo_apps ''contracts'' ''Contract'' = Inr Contract_model \<and>
      demo_apps ''contracts'' ''ContractAbi'' = Inr ContractAbi_model \<and>
      demo_apps ''history'' ''Chain'' = Inr Chain_model"
    using l by simp
  have ch: "tables (world (snd (reverse_initial_safe_data demo_env demo_apps () (start demo_seeded))))
     Chain_model = []"
    by (simp add: reverse_world [OF l] demo_env_def demo_delete_def)
  note twice = apply_twice_reverse_twice [where env = demo_env and ?apps0.0 = demo_apps
      and apps = demo_apps and se = "()" and s = "start demo_fresh" and t = "start demo_seeded"
      and rows = demo_rows and sc = SafeContract_model and smc = SafeMasterCopy_model
      and pf = ProxyFactory_model and c = Contract_model and ca = ContractAbi_model
      and ch = Chain_model]
  note applied = twice [THEN conjunct1, THEN mp, OF load_exc]
  note reversed = twice [THEN conjunct2, THEN mp, OF L]
  note by_exc = reversed [THEN conjunct1, THEN mp, OF del_exc]
  note by_noop = reversed [THEN conjunct2, THEN mp, OF conjI [OF spec conjI [OF noop ok]]]
  from applied first dup by_exc ok by_noop ch show ?thesis by blast
qed

end
